theory Spec2Isabelle
  imports Main "HOL-Library.Sublist"
begin

section \<open>Python strings\<close>

text \<open>
  A Python \<open>str\<close> is a sequence of Unicode code points; \<open>len\<close>, slicing and
  \<open>startswith\<close> count code points. The source file \<open>aaaa.py\<close> writes its
  accented letters precomposed (one code point each), so a string is modelled as a
  list of code points. \<open>U\<close> turns an ASCII literal into such a list; code points
  beyond ASCII are written as numbers.
\<close>

type_synonym pystr = "nat list"

definition U :: "string \<Rightarrow> pystr" where
  "U s = map of_char s"

text \<open>The exceptions that \<open>parse_code\<close> can raise: an index out of range and a
  tuple unpacking of the wrong length.\<close>

datatype py_error = IndexError | ValueError

text \<open>\<open>str.isspace\<close> of one code point: what \<open>str.strip()\<close> and \<open>str.split()\<close>
  without argument treat as whitespace.\<close>

definition is_space :: "nat \<Rightarrow> bool" where
  "is_space c \<longleftrightarrow>
     (9 \<le> c \<and> c \<le> 13) \<or> (28 \<le> c \<and> c \<le> 32) \<or> c = 133 \<or> c = 160 \<or> c = 5760 \<or>
     (8192 \<le> c \<and> c \<le> 8202) \<or> c = 8232 \<or> c = 8233 \<or> c = 8239 \<or> c = 8287 \<or>
     c = 12288"

text \<open>The line boundaries of \<open>str.splitlines()\<close>.\<close>

definition is_linebreak :: "nat \<Rightarrow> bool" where
  "is_linebreak c \<longleftrightarrow>
     (10 \<le> c \<and> c \<le> 13) \<or> (28 \<le> c \<and> c \<le> 30) \<or> c = 133 \<or> c = 8232 \<or> c = 8233"

definition strip_by :: "(nat \<Rightarrow> bool) \<Rightarrow> pystr \<Rightarrow> pystr" where
  "strip_by P s = rev (dropWhile P (rev (dropWhile P s)))"

text \<open>\<open>s.strip()\<close> and \<open>s.strip(':')\<close>.\<close>

definition strip :: "pystr \<Rightarrow> pystr" where
  "strip s = strip_by is_space s"

definition strip_colon :: "pystr \<Rightarrow> pystr" where
  "strip_colon s = strip_by (\<lambda>c. c = 58) s"

text \<open>\<open>s.startswith(p)\<close>.\<close>

definition startswith :: "pystr \<Rightarrow> pystr \<Rightarrow> bool" where
  "startswith s p = prefix p s"

text \<open>\<open>s.split()\<close>: the maximal runs of non-whitespace, in order.\<close>

fun split_ws_from :: "pystr \<Rightarrow> pystr \<Rightarrow> pystr list" where
  "split_ws_from cur [] = (if cur = [] then [] else [cur])"
| "split_ws_from cur (c # cs) =
     (if is_space c
      then (if cur = [] then split_ws_from [] cs else cur # split_ws_from [] cs)
      else split_ws_from (cur @ [c]) cs)"

definition split_ws :: "pystr \<Rightarrow> pystr list" where
  "split_ws s = split_ws_from [] s"

text \<open>\<open>s.split(sep)\<close> for a non-empty separator: cut at every occurrence of
  \<open>sep\<close>, scanning from the left without overlap; the result always has at least
  one piece. (Every separator in the source is a non-empty literal.)\<close>

fun split_on :: "pystr \<Rightarrow> pystr \<Rightarrow> pystr \<Rightarrow> pystr list" where
  "split_on sep cur [] = [cur]"
| "split_on sep cur (c # cs) =
     (if sep \<noteq> [] \<and> prefix sep (c # cs)
      then cur # split_on sep [] (drop (length sep - 1) cs)
      else split_on sep (cur @ [c]) cs)"

definition split_sep :: "pystr \<Rightarrow> pystr \<Rightarrow> pystr list" where
  "split_sep s sep = split_on sep [] s"

text \<open>\<open>s.replace(old, new)\<close> for a non-empty \<open>old\<close>: every occurrence, from the
  left, without overlap.\<close>

fun replace_str :: "pystr \<Rightarrow> pystr \<Rightarrow> pystr \<Rightarrow> pystr" where
  "replace_str old new [] = []"
| "replace_str old new (c # cs) =
     (if old \<noteq> [] \<and> prefix old (c # cs)
      then new @ replace_str old new (drop (length old - 1) cs)
      else c # replace_str old new cs)"

text \<open>\<open>s.splitlines()\<close>: \<open>\r\n\<close> is one boundary; a final boundary opens no
  further line; the empty string has no line.\<close>

fun splitlines_from :: "pystr \<Rightarrow> pystr \<Rightarrow> pystr list" where
  "splitlines_from cur [] = (if cur = [] then [] else [cur])"
| "splitlines_from cur (c # cs) =
     (if c = 13 \<and> cs \<noteq> [] \<and> hd cs = 10 then cur # splitlines_from [] (tl cs)
      else if is_linebreak c then cur # splitlines_from [] cs
      else splitlines_from (cur @ [c]) cs)"

definition splitlines :: "pystr \<Rightarrow> pystr list" where
  "splitlines s = splitlines_from [] s"

text \<open>\<open>sep.join(xs)\<close>.\<close>

fun join :: "pystr \<Rightarrow> pystr list \<Rightarrow> pystr" where
  "join sep [] = []"
| "join sep [x] = x"
| "join sep (x # y # ys) = x @ sep @ join sep (y # ys)"

text \<open>The slices the source takes: \<open>s[a:]\<close>, \<open>s[a:-k]\<close> and \<open>s[:n]\<close>. A slice
  never raises; out-of-range bounds are clipped.\<close>

definition slice_from :: "nat \<Rightarrow> pystr \<Rightarrow> pystr" where
  "slice_from a s = drop a s"

definition slice_between :: "nat \<Rightarrow> nat \<Rightarrow> pystr \<Rightarrow> pystr" where
  "slice_between a k s = drop a (take (length s - k) s)"

definition slice_to :: "nat \<Rightarrow> pystr \<Rightarrow> pystr" where
  "slice_to n s = take n s"

text \<open>\<open>s * n\<close>.\<close>

definition repeat_str :: "pystr \<Rightarrow> nat \<Rightarrow> pystr" where
  "repeat_str s n = concat (replicate n s)"

text \<open>\<open>str(n)\<close> of a non-negative integer, as an f-string renders it.\<close>

fun str_nat :: "nat \<Rightarrow> pystr" where
  "str_nat n = (if n < 10 then [48 + n] else str_nat (n div 10) @ [48 + n mod 10])"

declare str_nat.simps [simp del]

text \<open>The number that a string of decimal digits denotes: what \<open>int(s)\<close> reads
  back from \<open>str(n)\<close>.\<close>

definition decimal_value :: "pystr \<Rightarrow> nat" where
  "decimal_value ds = foldl (\<lambda>a d. 10 * a + (d - 48)) 0 ds"

text \<open>\<open>s.isdigit()\<close>: non-empty and every code point a digit. Which code points
  count as digits is a table of the Python runtime (Unicode \<open>Numeric_Type\<close> Digit
  or Decimal), not of this repository; it is the parameter \<open>digit\<close>.\<close>

definition isdigit :: "(nat \<Rightarrow> bool) \<Rightarrow> pystr \<Rightarrow> bool" where
  "isdigit digit s \<longleftrightarrow> s \<noteq> [] \<and> list_all digit s"

definition ascii_digit :: "nat \<Rightarrow> bool" where
  "ascii_digit c \<longleftrightarrow> 48 \<le> c \<and> c \<le> 57"

text \<open>\<open>xs[i]\<close>, \<open>xs[-1]\<close> and the unpacking \<open>a, b = xs\<close>, with their exceptions.\<close>

definition item :: "'a list \<Rightarrow> nat \<Rightarrow> py_error + 'a" where
  "item xs i = (if i < length xs then Inr (xs ! i) else Inl IndexError)"

definition item_last :: "'a list \<Rightarrow> py_error + 'a" where
  "item_last xs = (if xs = [] then Inl IndexError else Inr (last xs))"

definition unpack2 :: "'a list \<Rightarrow> py_error + ('a \<times> 'a)" where
  "unpack2 xs = (case xs of [a, b] \<Rightarrow> Inr (a, b) | _ \<Rightarrow> Inl ValueError)"

section \<open>The translator: \<open>EduCodeApp.parse_code\<close>\<close>

text \<open>The keywords of the source that contain an accented letter
  (233 is e-acute, 224 a-grave, 238 i-circumflex).\<close>

definition kw_repeter :: pystr where
  "kw_repeter = U ''r'' @ [233] @ U ''p'' @ [233] @ U ''ter''"

definition kw_incrementer :: pystr where
  "kw_incrementer = U ''incr'' @ [233] @ U ''menter''"

definition sep_a :: pystr where
  "sep_a = U '' '' @ [224] @ U '' ''"

definition kw_deplacer :: pystr where
  "kw_deplacer = U ''d'' @ [233] @ U ''placer(''"

definition kw_couleur_detectee :: pystr where
  "kw_couleur_detectee = U ''couleur_d'' @ [233] @ U ''tect'' @ [233] @ U ''e()''"

definition kw_detecter_objet :: pystr where
  "kw_detecter_objet = U ''d'' @ [233] @ U ''tecter_objet(''"

definition kw_reconnaitre_parole :: pystr where
  "kw_reconnaitre_parole = U ''reconna'' @ [238] @ U ''tre_parole(''"

definition kw_ia_generer_texte :: pystr where
  "kw_ia_generer_texte = U ''ia_g'' @ [233] @ U ''n'' @ [233] @ U ''rer_texte(''"

definition kw_quand_touche_pressee :: pystr where
  "kw_quand_touche_pressee = U ''quand_touche_press'' @ [233] @ U ''e(''"

definition kw_quand_clique :: pystr where
  "kw_quand_clique = U ''quand_cliqu'' @ [233]"

text \<open>The comment \<open>  # Valeur simulee\<close> (with an acute accent) that ends the three sensor lines.\<close>

definition valeur_simulee :: pystr where
  "valeur_simulee = U ''  # Valeur simul'' @ [233] @ U ''e''"

text \<open>
  The body of the loop of \<open>parse_code\<close> (lines 838 to 943): the chain of
  \<open>startswith\<close> tests on \<open>stripped\<close>, in the order of the source; the first test
  that holds decides. The result is the list of lines the iteration appends to
  \<open>python_lines\<close>, or the exception it raises. 39 is the apostrophe, 128173 the
  thought balloon, 201 E-acute, 234 e-circumflex.
\<close>

definition translate_stmt :: "(nat \<Rightarrow> bool) \<Rightarrow> pystr \<Rightarrow> pystr \<Rightarrow> py_error + pystr list" where
  \<open>translate_stmt digit indent stripped =
    (if startswith stripped (U ''dire('') then
       Inr [indent @ replace_str (U ''dire'') (U ''print'') stripped]
     else if startswith stripped (U ''penser('') then
       Inr [indent @ U ''print("'' @ [128173] @ U '' '' @ slice_between 7 1 stripped @ U ''")'']
     else if startswith stripped kw_repeter then
       (let parts = split_ws stripped in
        if U ''pour'' \<in> set parts then
          (case item parts 2 of Inl e \<Rightarrow> Inl e | Inr var \<Rightarrow>
           case item_last parts of Inl e \<Rightarrow> Inl e | Inr l \<Rightarrow>
             Inr [indent @ U ''for '' @ var @ U '' in '' @ replace_str (U '':'') [] l @ U '':''])
        else
          (case item parts 1 of Inl e \<Rightarrow> Inl e | Inr count \<Rightarrow>
             if isdigit digit count
             then Inr [indent @ U ''for _ in range('' @ count @ U ''):'']
             else Inr []))
     else if startswith stripped (U ''si'') then
       Inr [indent @ U ''if '' @ strip_colon (slice_from 3 stripped) @ U '':'']
     else if startswith stripped (U ''sinon si'') then
       Inr [indent @ U ''elif '' @ strip_colon (slice_from 8 stripped) @ U '':'']
     else if startswith stripped (U ''sinon'') then
       Inr [indent @ U ''else:'']
     else if startswith stripped (U ''attendre('') then
       Inr [indent @ U ''time.sleep('' @ slice_between 8 1 stripped @ U '')'']
     else if startswith stripped (U ''variable'') then
       Inr [indent @ strip (replace_str (U ''variable'') [] stripped)]
     else if startswith stripped (U ''changer'') then
       (case item (split_ws stripped) 1 of Inl e \<Rightarrow> Inl e | Inr var \<Rightarrow>
        case item (split_ws stripped) 3 of Inl e \<Rightarrow> Inl e | Inr val \<Rightarrow>
          Inr [indent @ var @ U '' += '' @ val])
     else if startswith stripped kw_incrementer then
       (case item (split_ws stripped) 1 of Inl e \<Rightarrow> Inl e | Inr var \<Rightarrow>
          Inr [indent @ var @ U '' += 1''])
     else if startswith stripped (U ''mettre'') then
       (case item (split_ws stripped) 1 of Inl e \<Rightarrow> Inl e | Inr var \<Rightarrow>
        case item (split_ws stripped) 3 of Inl e \<Rightarrow> Inl e | Inr val \<Rightarrow>
          Inr [indent @ var @ U '' = '' @ val])
     else if startswith stripped (U ''tant que'') then
       Inr [indent @ U ''while '' @ strip_colon (slice_from 9 stripped) @ U '':'']
     else if startswith stripped (U ''ajouter'') then
       (case unpack2 (split_sep stripped sep_a) of Inl e \<Rightarrow> Inl e | Inr (el, lst) \<Rightarrow>
          Inr [indent @ lst @ U ''.append('' @ strip (replace_str (U ''ajouter'') [] el) @ U '')''])
     else if startswith stripped (U ''enlever'') then
       (case unpack2 (split_sep stripped (U '' de '')) of Inl e \<Rightarrow> Inl e | Inr (el, lst) \<Rightarrow>
          Inr [indent @ lst @ U ''.remove('' @ strip (replace_str (U ''enlever'') [] el) @ U '')''])
     else if startswith stripped (U ''liste'') then
       Inr [indent @ strip (replace_str (U ''liste'') [] stripped)]
     else if startswith stripped (U ''fonction'') then
       Inr [indent @ U ''def '' @ strip (replace_str (U ''fonction'') [] stripped)]
     else if startswith stripped (U ''retourner'') then
       Inr [indent @ U ''return '' @ strip (replace_str (U ''retourner'') [] stripped)]
     else if startswith stripped (U ''quand_drapeau_clique'') then
       Inr [[], indent @ U ''if __name__ == '__main__':'', indent @ U ''    main()'']
     else if startswith stripped (U ''pause('') then
       Inr [indent @ U ''time.sleep('' @ slice_between 6 1 stripped @ U '')'']
     else if startswith stripped (U ''stopper()'') then
       Inr [indent @ U ''exit()'']
     else if startswith stripped (U ''stopper_tout()'') then
       Inr [indent @ U ''os._exit(0)'']
     else if startswith stripped kw_deplacer then
       Inr [indent @ U ''print('' @ [39, 68, 233] @ U ''placement de '' @ slice_between 8 1 stripped
              @ U '' unit'' @ [233] @ U ''s'' @ [39] @ U '')'']
     else if startswith stripped (U ''tourner_droite('') then
       Inr [indent @ U ''print('' @ [39] @ U ''Rotation droite de '' @ slice_between 15 1 stripped
              @ U '' degr'' @ [233] @ U ''s'' @ [39] @ U '')'']
     else if startswith stripped (U ''aller_a('') then
       (case unpack2 (split_sep (slice_between 8 1 stripped) (U '','')) of Inl e \<Rightarrow> Inl e
        | Inr (x, y) \<Rightarrow>
          Inr [indent @ U ''print('' @ [39] @ U ''Aller '' @ [224] @ U '' position ('' @ strip x
                 @ U '', '' @ strip y @ U '')'' @ [39] @ U '')''])
     else if startswith stripped (U ''rebondir_si_bord()'') then
       Inr [indent @ U ''print('' @ [39] @ U ''Rebond si bord d'' @ [233] @ U ''tect'' @ [233, 39]
              @ U '')'']
     else if startswith stripped (U ''montrer()'') then
       Inr [indent @ U ''print('' @ [39] @ U ''Objet visible'' @ [39] @ U '')'']
     else if startswith stripped (U ''cacher()'') then
       Inr [indent @ U ''print('' @ [39] @ U ''Objet cach'' @ [233, 39] @ U '')'']
     else if startswith stripped (U ''changer_couleur('') then
       Inr [indent @ U ''print('' @ [39] @ U ''Changement couleur en '' @ slice_between 16 1 stripped
              @ [39] @ U '')'']
     else if startswith stripped (U ''jouer_son('') then
       Inr [indent @ U ''print('' @ [39] @ U ''Jouer son '' @ slice_between 10 1 stripped
              @ [39] @ U '')'']
     else if startswith stripped (U ''arreter_son()'') then
       Inr [indent @ U ''print('' @ [39] @ U ''Arr'' @ [234] @ U ''t son'' @ [39] @ U '')'']
     else if startswith stripped (U ''changer_volume('') then
       Inr [indent @ U ''print('' @ [39] @ U ''Volume chang'' @ [233] @ U '' '' @ [224] @ U '' ''
              @ slice_between 15 1 stripped @ [39] @ U '')'']
     else if startswith stripped (U ''capteur_distance()'') then
       Inr [indent @ U ''distance = 0'' @ valeur_simulee]
     else if startswith stripped (U ''toucher()'') then
       Inr [indent @ U ''toucher = False'' @ valeur_simulee]
     else if startswith stripped kw_couleur_detectee then
       Inr [indent @ U ''couleur = 'rouge'' @ [39] @ valeur_simulee]
     else if startswith stripped kw_detecter_objet then
       Inr [indent @ U ''print('' @ [39] @ U ''D'' @ [233] @ U ''tection objet dans ''
              @ slice_between 15 1 stripped @ [39] @ U '')'']
     else if startswith stripped kw_reconnaitre_parole then
       Inr [indent @ U ''print('' @ [39] @ U ''Reconnaissance parole dans ''
              @ slice_between 18 1 stripped @ [39] @ U '')'']
     else if startswith stripped kw_ia_generer_texte then
       Inr [indent @ U ''print('' @ [39] @ U ''G'' @ [233] @ U ''n'' @ [233] @ U ''ration texte pour ''
              @ slice_between 17 1 stripped @ [39] @ U '')'']
     else if startswith stripped (U ''pour chaque'') then
       (case unpack2 (split_sep (slice_from 12 stripped) (U '' dans '')) of Inl e \<Rightarrow> Inl e
        | Inr (var, range_part) \<Rightarrow>
          case unpack2 (split_sep (replace_str (U '':'') [] range_part) (U ''..'')) of
            Inl e \<Rightarrow> Inl e
          | Inr (start, end) \<Rightarrow>
              Inr [indent @ U ''for '' @ var @ U '' in range('' @ start @ U '', '' @ end @ U ''+1):''])
     else if startswith stripped (U ''longueur('') then
       Inr [indent @ U ''len('' @ slice_between 9 1 stripped @ U '')'']
     else if startswith stripped (U ''arrondi('') then
       Inr [indent @ U ''round('' @ slice_between 8 1 stripped @ U '')'']
     else if startswith stripped kw_quand_touche_pressee then
       Inr [indent @ U ''# '' @ [201] @ U ''v'' @ [233] @ U ''nement touche ''
              @ slice_between 20 2 stripped @ U '' press'' @ [233] @ U ''e'']
     else if startswith stripped kw_quand_clique then
       Inr [indent @ U ''# '' @ [201] @ U ''v'' @ [233] @ U ''nement clic souris'']
     else
       Inr [indent @ stripped])\<close>

text \<open>Lines 835 to 837: \<open>stripped\<close>, \<open>indent_level\<close> and \<open>indent\<close> of one line.
  Both lengths come from \<open>line.strip()\<close>, which strips both ends.\<close>

definition indent_level :: "pystr \<Rightarrow> nat" where
  "indent_level line = (length line - length (strip line)) div 4"

definition indent_of :: "pystr \<Rightarrow> pystr" where
  "indent_of line = repeat_str (U ''    '') (indent_level line)"

definition translate_line :: "(nat \<Rightarrow> bool) \<Rightarrow> pystr \<Rightarrow> py_error + pystr list" where
  "translate_line digit line = translate_stmt digit (indent_of line) (strip line)"

text \<open>The list \<open>python_lines\<close> starts as these five lines (lines 826 to 832).\<close>

definition preamble :: "pystr list" where
  "preamble =
     [U ''# -*- coding: utf-8 -*-'',
      U ''# Code g'' @ [233] @ U ''n'' @ [233] @ U ''r'' @ [233] @ U '' par EduCode'',
      U ''import time'',
      U ''import math'',
      []]"

text \<open>The \<open>for\<close> loop over the lines: an exception leaves the loop and the function.\<close>

fun translate_lines :: "(nat \<Rightarrow> bool) \<Rightarrow> pystr list \<Rightarrow> pystr list \<Rightarrow> py_error + pystr list" where
  "translate_lines digit python_lines [] = Inr python_lines"
| "translate_lines digit python_lines (line # lines) =
     (case translate_line digit line of
        Inl e \<Rightarrow> Inl e
      | Inr out \<Rightarrow> translate_lines digit (python_lines @ out) lines)"

definition parse_code :: "(nat \<Rightarrow> bool) \<Rightarrow> pystr \<Rightarrow> py_error + pystr" where
  "parse_code digit code =
     (case translate_lines digit preamble (splitlines code) of
        Inl e \<Rightarrow> Inl e
      | Inr python_lines \<Rightarrow> Inr (join [10] python_lines))"

text \<open>The prefixes that the chain tests, in its order: a content that starts
  with none of them reaches the final \<open>else\<close>.\<close>

definition rule_prefixes :: "pystr list" where
  "rule_prefixes =
     [U ''dire('', U ''penser('', kw_repeter, U ''si'', U ''sinon si'', U ''sinon'',
      U ''attendre('', U ''variable'', U ''changer'', kw_incrementer, U ''mettre'',
      U ''tant que'', U ''ajouter'', U ''enlever'', U ''liste'', U ''fonction'',
      U ''retourner'', U ''quand_drapeau_clique'', U ''pause('', U ''stopper()'',
      U ''stopper_tout()'', kw_deplacer, U ''tourner_droite('', U ''aller_a('',
      U ''rebondir_si_bord()'', U ''montrer()'', U ''cacher()'', U ''changer_couleur('',
      U ''jouer_son('', U ''arreter_son()'', U ''changer_volume('', U ''capteur_distance()'',
      U ''toucher()'', kw_couleur_detectee, kw_detecter_objet, kw_reconnaitre_parole,
      kw_ia_generer_texte, U ''pour chaque'', U ''longueur('', U ''arrondi('',
      kw_quand_touche_pressee, kw_quand_clique]"

definition matches_some_rule :: "pystr \<Rightarrow> bool" where
  "matches_some_rule stripped = list_ex (startswith stripped) rule_prefixes"

section \<open>Debug instrumentation: the loop of \<open>EduCodeApp.debug_code\<close>\<close>

text \<open>Line 392: the trace statement for the line at index \<open>i\<close> of \<open>enumerate\<close>;
  it prints \<open>i + 1\<close> and the first 50 code points of the stripped line.\<close>

definition preview :: "pystr \<Rightarrow> pystr" where
  "preview line = slice_to 50 (strip line)"

definition trace_stmt :: "nat \<Rightarrow> pystr \<Rightarrow> pystr" where
  "trace_stmt i line =
     U ''print('' @ [39] @ U ''DEBUG: Ligne '' @ str_nat (i + 1) @ U '' - '' @ preview line
       @ [39] @ U '')''"

fun debug_loop :: "nat \<Rightarrow> pystr list \<Rightarrow> pystr list \<Rightarrow> pystr list" where
  "debug_loop i debug_code [] = debug_code"
| "debug_loop i debug_code (line # lines) =
     debug_loop (i + 1) (debug_code @ [trace_stmt i line, line]) lines"

definition debug_lines :: "pystr \<Rightarrow> pystr list" where
  "debug_lines py_code = debug_loop 0 [] (splitlines py_code)"

definition debug_program :: "pystr \<Rightarrow> pystr" where
  "debug_program py_code = join [10] (debug_lines py_code)"

section \<open>The execution harness: \<open>run_code\<close> and \<open>debug_code\<close>\<close>

text \<open>
  What \<open>subprocess.run\<close> can do: return a completed process (captured standard
  output, standard error, return code), raise \<open>TimeoutExpired\<close> (which carries the
  output captured until then), or raise another exception (its message).
  The files are a map from path to content. The child process and the operating system
  are outside the program: \<open>subprocess_run path timeout fs\<close> gives the outcome and the
  files as the child leaves them.
\<close>

datatype outcome =
    Completed pystr pystr int
  | TimeoutExpired pystr pystr
  | OtherException pystr

type_synonym filesystem = "pystr \<rightharpoonup> pystr"

type_synonym subprocess = "pystr \<Rightarrow> nat \<Rightarrow> filesystem \<Rightarrow> outcome \<times> filesystem"

record app_state =
  editor :: pystr
  console :: pystr
  status_message :: pystr
  files :: filesystem

text \<open>The messages of lines 375, 377, 379, 382 and 416 (9989 is the check mark,
  9201 and 65039 the stopwatch and its variation selector, 10060 the cross mark,
  232 e-grave).\<close>

definition success_msg :: pystr where
  "success_msg = [10, 9989] @ U '' Code ex'' @ [233] @ U ''cut'' @ [233] @ U '' avec succ''
     @ [232] @ U ''s.''"

definition timeout_msg :: pystr where
  "timeout_msg = [9201, 65039] @ U '' Erreur : le script a pris trop de temps.''"

definition failure_msg :: pystr where
  "failure_msg = [10060] @ U '' Erreur '' @ [224] @ U '' l'ex'' @ [233] @ U ''cution : ''"

definition status_run :: pystr where
  "status_run = U ''Ex'' @ [233] @ U ''cution termin'' @ [233] @ U ''e''"

definition status_debug :: pystr where
  "status_debug = U ''D'' @ [233] @ U ''bogage termin'' @ [233]"

text \<open>
  \<open>run_code\<close> (lines 357 to 382). \<open>parse_code\<close> is called before the \<open>try\<close>: its
  exception leaves \<open>run_code\<close> before any file exists. \<open>NamedTemporaryFile\<close> is called
  with \<open>delete=False\<close>; \<open>path\<close> is the name it chose. No statement of the function
  removes or renames a file.
\<close>

definition run_code :: "(nat \<Rightarrow> bool) \<Rightarrow> subprocess \<Rightarrow> pystr \<Rightarrow> app_state \<Rightarrow> py_error + app_state" where
  "run_code digit subprocess_run path st =
     (case parse_code digit (editor st) of
        Inl e \<Rightarrow> Inl e
      | Inr py_code \<Rightarrow>
          (case subprocess_run path 10 ((files st)(path \<mapsto> py_code)) of
             (result, fs) \<Rightarrow>
               Inr (st\<lparr>console :=
                         (case result of
                            Completed out err returncode \<Rightarrow>
                              (out @ err) @ (if returncode = 0 then success_msg else [])
                          | TimeoutExpired out err \<Rightarrow> timeout_msg
                          | OtherException msg \<Rightarrow> failure_msg @ msg),
                       status_message := status_run,
                       files := fs\<rparr>)))"

text \<open>\<open>debug_code\<close> (lines 384 to 416): the same with the instrumented program,
  15 seconds and no success marker.\<close>

definition debug_code :: "(nat \<Rightarrow> bool) \<Rightarrow> subprocess \<Rightarrow> pystr \<Rightarrow> app_state \<Rightarrow> py_error + app_state" where
  "debug_code digit subprocess_run path st =
     (case parse_code digit (editor st) of
        Inl e \<Rightarrow> Inl e
      | Inr py_code \<Rightarrow>
          (case subprocess_run path 15 ((files st)(path \<mapsto> debug_program py_code)) of
             (result, fs) \<Rightarrow>
               Inr (st\<lparr>console :=
                         (case result of
                            Completed out err returncode \<Rightarrow> out @ err
                          | TimeoutExpired out err \<Rightarrow> timeout_msg
                          | OtherException msg \<Rightarrow> failure_msg @ msg),
                       status_message := status_debug,
                       files := fs\<rparr>)))"

text \<open>
  What a caller sees of a call that may have raised: the content of a file and the
  text of the console afterwards.
\<close>

definition file_after :: "py_error + app_state \<Rightarrow> pystr \<Rightarrow> pystr option" where
  "file_after r path = (case r of Inl e \<Rightarrow> None | Inr st \<Rightarrow> files st path)"

definition console_after :: "py_error + app_state \<Rightarrow> pystr option" where
  "console_after r = (case r of Inl e \<Rightarrow> None | Inr st \<Rightarrow> Some (console st))"

text \<open>
  Four child processes that leave the files alone, one for each way a run can end:
  the child exits with a return code, the timeout expires, the child cannot be
  launched.
\<close>

definition exits_with :: "pystr \<Rightarrow> pystr \<Rightarrow> int \<Rightarrow> subprocess" where
  "exits_with out err returncode path timeout fs = (Completed out err returncode, fs)"

definition times_out :: "pystr \<Rightarrow> pystr \<Rightarrow> subprocess" where
  "times_out out err path timeout fs = (TimeoutExpired out err, fs)"

definition fails_to_launch :: "pystr \<Rightarrow> subprocess" where
  "fails_to_launch msg path timeout fs = (OtherException msg, fs)"

definition initial_state :: "pystr \<Rightarrow> app_state" where
  "initial_state code = \<lparr>editor = code, console = [], status_message = [], files = Map.empty\<rparr>"

section \<open>The lines of the generated text\<close>

text \<open>
  \<open>parse_code\<close> returns its lines joined by newlines (line 945) and \<open>debug_code\<close>
  splits that text again with \<open>splitlines()\<close> (line 391). Two notions state what the
  second sees of the first: a string is \<open>clean\<close> when it holds no line boundary, and
  \<open>without_final_empty\<close> drops the last line of a list when that line is empty, which
  is what \<open>splitlines\<close> does to a final boundary.
\<close>

definition clean :: "pystr \<Rightarrow> bool" where
  "clean s = list_all (\<lambda>c. \<not> is_linebreak c) s"

definition without_final_empty :: "pystr list \<Rightarrow> pystr list" where
  "without_final_empty ls = (if ls \<noteq> [] \<and> last ls = [] then butlast ls else ls)"

section \<open>Evaluation and helper lemmas\<close>

lemmas py_eval = U_def strip_def strip_by_def strip_colon_def startswith_def split_ws_def
  split_sep_def splitlines_def slice_from_def slice_between_def slice_to_def repeat_str_def
  isdigit_def ascii_digit_def item_def item_last_def unpack2_def is_space_def is_linebreak_def
  kw_repeter_def kw_incrementer_def sep_a_def kw_deplacer_def kw_couleur_detectee_def
  kw_detecter_objet_def kw_reconnaitre_parole_def kw_ia_generer_texte_def
  kw_quand_touche_pressee_def kw_quand_clique_def valeur_simulee_def
  indent_level_def indent_of_def translate_line_def translate_stmt_def

lemma translate_lines_extends:
  "translate_lines digit acc ls = Inr out \<Longrightarrow> \<exists>body. out = acc @ body"
proof (induction ls arbitrary: acc)
  case Nil
  then show ?case by simp
next
  case (Cons l ls)
  then show ?case by (fastforce split: sum.splits)
qed

lemma join_append:
  "xs \<noteq> [] \<Longrightarrow> ys \<noteq> [] \<Longrightarrow> join sep (xs @ ys) = join sep xs @ sep @ join sep ys"
  by (induction sep xs rule: join.induct) (auto simp: neq_Nil_conv)

lemma prefix_join: "xs \<noteq> [] \<Longrightarrow> prefix (join sep xs) (join sep (xs @ ys))"
  by (cases "ys = []") (simp_all add: join_append)

lemma debug_loop_append: "debug_loop i acc ls = acc @ debug_loop i [] ls"
proof (induction ls arbitrary: i acc)
  case Nil
  then show ?case by simp
next
  case (Cons l ls)
  have "debug_loop i acc (l # ls) = (acc @ [trace_stmt i l, l]) @ debug_loop (i + 1) [] ls"
    using Cons.IH [of "i + 1" "acc @ [trace_stmt i l, l]"] by simp
  moreover have "debug_loop i [] (l # ls) = [trace_stmt i l, l] @ debug_loop (i + 1) [] ls"
    using Cons.IH [of "i + 1" "[trace_stmt i l, l]"] by simp
  ultimately show ?case by simp
qed

lemma debug_loop_Cons:
  "debug_loop i [] (l # ls) = trace_stmt i l # l # debug_loop (Suc i) [] ls"
  using debug_loop_append [of "Suc i" "[trace_stmt i l, l]" ls] by simp

lemma debug_loop_length: "length (debug_loop i [] ls) = 2 * length ls"
  by (induction ls arbitrary: i) (simp_all add: debug_loop_Cons del: debug_loop.simps(2))

lemma debug_loop_nth:
  "j < length ls \<Longrightarrow>
     debug_loop i [] ls ! (2 * j) = trace_stmt (i + j) (ls ! j) \<and>
     debug_loop i [] ls ! (2 * j + 1) = ls ! j"
proof (induction ls arbitrary: i j)
  case Nil
  then show ?case by simp
next
  case (Cons l ls)
  show ?case
  proof (cases j)
    case 0
    then show ?thesis by (simp add: debug_loop_Cons del: debug_loop.simps)
  next
    case (Suc k)
    with Cons.prems have "k < length ls" by simp
    from Cons.IH [OF this, of "Suc i"] Suc show ?thesis
      by (simp add: debug_loop_Cons del: debug_loop.simps)
  qed
qed

text \<open>\<open>str_nat\<close> writes a number in decimal: its digits are ASCII digits and denote
  the number.\<close>

lemma str_nat_decimal: "decimal_value (str_nat n) = n \<and> list_all ascii_digit (str_nat n)"
proof (induction n rule: str_nat.induct)
  case (1 n)
  show ?case
  proof (cases "n < 10")
    case True
    then show ?thesis by (simp add: str_nat.simps [of n] ascii_digit_def decimal_value_def)
  next
    case False
    with 1 have ih: "decimal_value (str_nat (n div 10)) = n div 10"
      "list_all ascii_digit (str_nat (n div 10))" by simp_all
    have d: "ascii_digit (48 + n mod 10)"
      by (simp add: ascii_digit_def)
    have m: "10 * (n div 10) + n mod 10 = n"
      by simp
    from False ih d m show ?thesis
      by (simp add: str_nat.simps [of n] decimal_value_def)
  qed
qed

text \<open>The indent of a line is four spaces per level.\<close>

lemma repeat_spaces: "repeat_str (U ''    '') n = replicate (4 * n) 32"
proof (induction n)
  case 0
  then show ?case by (simp add: repeat_str_def)
next
  case (Suc n)
  have "replicate (4 * Suc n) (32::nat) = replicate 4 32 @ replicate (4 * n) 32"
    by (simp add: replicate_add [symmetric])
  with Suc show ?case
    by (simp add: repeat_str_def U_def numeral_eq_Suc)
qed

lemma indent_of_spaces: "indent_of line = replicate (4 * indent_level line) 32"
  by (simp add: indent_of_def repeat_spaces)

text \<open>\<open>str_nat\<close> of a positive number is not empty and does not start with the digit
  zero: with the lemma before, it is the decimal numeral of the number.\<close>

lemma str_nat_canonical: "0 < n \<Longrightarrow> str_nat n \<noteq> [] \<and> hd (str_nat n) \<noteq> 48"
proof (induction n rule: str_nat.induct)
  case (1 n)
  show ?case
  proof (cases "n < 10")
    case True
    with 1(2) show ?thesis by (simp add: str_nat.simps [of n])
  next
    case False
    then have "0 < n div 10" by simp
    with 1(1) [OF False] have "str_nat (n div 10) \<noteq> []" "hd (str_nat (n div 10)) \<noteq> 48"
      by simp_all
    with False show ?thesis by (simp add: str_nat.simps [of n])
  qed
qed

section \<open>The order of the conditional rules\<close>

text \<open>
  C1. The claim: the else-if rule is tried before the bare else rule and the bare if
  rule, so a line \<open>sinon si COND:\<close> gives \<open>elif COND:\<close> and a line \<open>sinon:\<close> gives
  \<open>else:\<close>, never an \<open>if\<close> header. In the source the test \<open>startswith("si")\<close>
  (line 851) stands before \<open>startswith("sinon si")\<close> (line 853) and
  \<open>startswith("sinon")\<close> (line 855), and both keywords begin with \<open>si\<close>: every
  line whose content begins with \<open>sinon\<close> is taken by the \<open>if\<close> rule, which emits
  \<open>if\<close>, the content from its fourth code point on with the colons stripped at both
  ends, and a colon. The two later branches are never reached.
\<close>

theorem sinon_translated_as_if:
  assumes "startswith (strip line) (U ''sinon'')"
  shows "translate_line digit line =
     Inr [indent_of line @ U ''if '' @ strip_colon (slice_from 3 (strip line)) @ U '':'']"
proof -
  from assms obtain zs where s: "strip line = U ''sinon'' @ zs"
    by (auto simp: startswith_def prefix_def)
  show ?thesis
    unfolding translate_line_def s
    by (simp add: translate_stmt_def startswith_def U_def kw_repeter_def)
qed

theorem sinon_translated_as_if_witness:
  "startswith (strip (U ''sinon si x > 3:'')) (U ''sinon'') \<and>
   translate_line ascii_digit (U ''sinon si x > 3:'') = Inr [U ''if on si x > 3:'']"
  using sinon_translated_as_if [of "U ''sinon si x > 3:''" ascii_digit]
  by (simp add: py_eval)

section \<open>The preamble\<close>

text \<open>
  C10. Whatever the source string, the output of the translator begins with the five
  lines of the preamble (the encoding line, the generated-by comment, the two imports
  and one empty line): the output is the preamble followed by the body lines, joined by
  newlines. For the empty source the output is exactly the five lines joined by
  newlines, with no body line: four lines each followed by a newline and then the
  empty fifth line, after which no further newline comes. (A source on which the
  translator raises has no output.)
\<close>

theorem parse_code_preamble:
  "(parse_code digit code = Inr out \<longrightarrow>
      (\<exists>body. out = join [10] (preamble @ body)) \<and> prefix (join [10] preamble) out) \<and>
   parse_code digit [] = Inr (join [10] preamble) \<and>
   join [10] preamble =
     U ''# -*- coding: utf-8 -*-'' @ [10] @
     U ''# Code g'' @ [233] @ U ''n'' @ [233] @ U ''r'' @ [233] @ U '' par EduCode'' @ [10] @
     U ''import time'' @ [10] @
     U ''import math'' @ [10]"
proof -
  have a: "parse_code digit code = Inr out \<longrightarrow>
      (\<exists>body. out = join [10] (preamble @ body)) \<and> prefix (join [10] preamble) out"
  proof
    assume h: "parse_code digit code = Inr out"
    then obtain ls where ls: "translate_lines digit preamble (splitlines code) = Inr ls"
      and out: "out = join [10] ls"
      by (auto simp: parse_code_def split: sum.splits)
    from translate_lines_extends [OF ls] obtain body where "ls = preamble @ body"
      by blast
    with out have e: "out = join [10] (preamble @ body)"
      by simp
    have "preamble \<noteq> []"
      by (simp add: preamble_def)
    from prefix_join [OF this] e
    show "(\<exists>body. out = join [10] (preamble @ body)) \<and> prefix (join [10] preamble) out"
      by blast
  qed
  have b: "parse_code digit [] = Inr (join [10] preamble)"
    by (simp add: parse_code_def splitlines_def)
  have c: "join [10] preamble =
     U ''# -*- coding: utf-8 -*-'' @ [10] @
     U ''# Code g'' @ [233] @ U ''n'' @ [233] @ U ''r'' @ [233] @ U '' par EduCode'' @ [10] @
     U ''import time'' @ [10] @
     U ''import math'' @ [10]"
    by (simp add: preamble_def)
  from a b c show ?thesis
    by blast
qed

theorem parse_code_preamble_witness:
  "parse_code ascii_digit (U ''variable score = 0'')
     = Inr (join [10] (preamble @ [U ''score = 0''])) \<and>
   prefix (join [10] preamble) (join [10] (preamble @ [U ''score = 0'']))"
proof -
  have e: "parse_code ascii_digit (U ''variable score = 0'')
     = Inr (join [10] (preamble @ [U ''score = 0'']))"
    by (simp add: parse_code_def py_eval preamble_def)
  from parse_code_preamble [of ascii_digit "U ''variable score = 0''"
      "join [10] (preamble @ [U ''score = 0''])"] e
  show ?thesis
    by blast
qed

section \<open>The line classifier\<close>

text \<open>
  C6. The claim: the indent level of a line is the number of its leading whitespace
  characters divided by 4, whatever its trailing whitespace, and the content is the
  line stripped at both ends. In the source the level is
  \<open>(len(line) - len(line.strip())) // 4\<close> (lines 835 and 836): \<open>strip\<close> removes the
  whitespace of both ends, so the trailing whitespace is counted too. The line
  \<open>dire(1)\<close> followed by four spaces has no leading whitespace, yet its level is 1
  and its translation is indented by four spaces.
\<close>

theorem indent_level_counts_trailing_whitespace:
  "indent_level (U ''dire(1)    '') = 1 \<and>
   length (takeWhile is_space (U ''dire(1)    '')) = 0 \<and>
   strip (U ''dire(1)    '') = U ''dire(1)'' \<and>
   translate_line digit (U ''dire(1)    '') = Inr [U ''    print(1)'']"
  by (simp add: py_eval)

section \<open>The set-color and set-volume statements\<close>

text \<open>
  C8. The claim: a line \<open>changer_couleur(ARG)\<close> or \<open>changer_volume(ARG)\<close> gives the
  descriptive print call of its rule (lines 909 and 915). In the source the test
  \<open>startswith("changer")\<close> (line 861) comes first and takes both: the line is split at
  whitespace and its second and fourth tokens are used. With fewer than four tokens
  the translation raises \<open>IndexError\<close>; with four or more it emits an augmented
  assignment of the second token by the fourth. The print rules are never reached.
\<close>

theorem changer_couleur_taken_by_changer:
  "translate_line digit (U ''changer_couleur(rouge)'') = Inl IndexError \<and>
   translate_line digit (U ''changer_volume(50)'') = Inl IndexError \<and>
   translate_line digit (U ''changer_couleur(a b c d)'') = Inr [U ''b += d)'']"
  by (simp add: py_eval)

section \<open>Lines generated per source line\<close>

text \<open>
  How many lines one iteration appends when it does not raise: one, except that the
  program-entry marker appends three and the \<open>repeter\<close> rule may append none. No
  other rule appends no line.
\<close>

lemma translate_stmt_line_count:
  assumes "translate_stmt digit indent stripped = Inr out"
  shows "length out = 1 \<or>
    (startswith stripped (U ''quand_drapeau_clique'') \<and> length out = 3) \<or>
    (startswith stripped kw_repeter \<and> out = [])"
  using assms unfolding translate_stmt_def Let_def
  by (auto split: if_splits sum.splits prod.splits)

text \<open>
  C5. The claim: every source line gives exactly one generated line (the program-entry
  marker gives three), no recognized rule gives zero lines, and the indentation depth
  is kept. In the source the rule for \<open>repeter\<close> (written with two acute accents) (lines 843 to 850) has an
  \<open>if\<close> for the for-each form and an \<open>elif\<close> for a numeric count, and no \<open>else\<close>:
  a line such as \<open>repeter x fois:\<close>, whose second token is no number, appends
  nothing. The loop header is lost and the lines of its block stay, indented under
  nothing.
\<close>

theorem repeter_emits_no_line:
  "translate_line ascii_digit (kw_repeter @ U '' x fois:'') = Inr [] \<and>
   parse_code ascii_digit (kw_repeter @ U '' x fois:'' @ [10] @ U ''    dire(1)'')
     = Inr (join [10] (preamble @ [U ''    print(1)'']))"
  by (simp add: py_eval parse_code_def preamble_def)

section \<open>Debug instrumentation\<close>

text \<open>
  Splitting a text that was joined by newlines gives the joined lines back, except for
  a final empty line, when no line holds a line boundary.
\<close>

lemma clean_Nil [simp]: "clean []"
  by (simp add: clean_def)

lemma clean_Cons [simp]: "clean (c # cs) \<longleftrightarrow> \<not> is_linebreak c \<and> clean cs"
  by (simp add: clean_def)

lemma clean_append [simp]: "clean (a @ b) \<longleftrightarrow> clean a \<and> clean b"
  by (simp add: clean_def)

lemma clean_subset: "clean s \<Longrightarrow> set t \<subseteq> set s \<Longrightarrow> clean t"
  by (auto simp: clean_def list_all_iff)

lemma splitlines_from_line:
  "clean l \<Longrightarrow> splitlines_from cur (l @ 10 # rest) = (cur @ l) # splitlines_from [] rest"
proof (induction l arbitrary: cur)
  case Nil
  then show ?case by (simp add: is_linebreak_def)
next
  case (Cons c l)
  from Cons.prems have c: "\<not> is_linebreak c" and l: "clean l"
    by simp_all
  from c have "c \<noteq> 13"
    by (auto simp: is_linebreak_def)
  with c Cons.IH [OF l, of "cur @ [c]"] show ?case
    by simp
qed

lemma splitlines_from_end:
  "clean l \<Longrightarrow> splitlines_from cur l = (if cur @ l = [] then [] else [cur @ l])"
proof (induction l arbitrary: cur)
  case Nil
  then show ?case by simp
next
  case (Cons c l)
  from Cons.prems have c: "\<not> is_linebreak c" and l: "clean l"
    by simp_all
  from c have "c \<noteq> 13"
    by (auto simp: is_linebreak_def)
  with c Cons.IH [OF l, of "cur @ [c]"] show ?case
    by simp
qed

lemma splitlines_join:
  "list_all clean ls \<Longrightarrow> splitlines (join [10] ls) = without_final_empty ls"
proof (induction "[10::nat]" ls rule: join.induct)
  case 1
  then show ?case by (simp add: splitlines_def without_final_empty_def)
next
  case (2 x)
  then show ?case
    by (simp add: splitlines_def without_final_empty_def splitlines_from_end)
next
  case (3 x y ys)
  from 3 have x: "clean x" and r: "list_all clean (y # ys)"
    by simp_all
  from 3(1) [OF r] have ih: "splitlines_from [] (join [10] (y # ys)) = without_final_empty (y # ys)"
    by (simp add: splitlines_def)
  have "splitlines (join [10] (x # y # ys)) = x # splitlines_from [] (join [10] (y # ys))"
    using splitlines_from_line [OF x, of "[]" "join [10] (y # ys)"]
    by (simp add: splitlines_def)
  with ih show ?case
    by (simp add: without_final_empty_def)
qed

text \<open>
  No line that the translator generates holds a line boundary: the lines of the source
  come from \<open>splitlines\<close>, and every rule builds its output from parts of the line and
  from constant texts without a boundary.
\<close>

lemma splitlines_from_clean:
  "clean cur \<Longrightarrow> list_all clean (splitlines_from cur s)"
proof (induction cur s rule: splitlines_from.induct)
  case (1 cur)
  then show ?case by simp
next
  case (2 cur c cs)
  show ?case
  proof (cases "c = 13 \<and> cs \<noteq> [] \<and> hd cs = 10")
    case True
    with 2 show ?thesis by simp
  next
    case False
    note f = this
    show ?thesis
    proof (cases "is_linebreak c")
      case True
      with f 2 show ?thesis by simp
    next
      case False
      with f 2 show ?thesis by simp
    qed
  qed
qed

lemma splitlines_clean: "list_all clean (splitlines s)"
  by (simp add: splitlines_def splitlines_from_clean)

lemma clean_strip_by: "clean s \<Longrightarrow> clean (strip_by P s)"
proof -
  have "set (strip_by P s) \<subseteq> set s"
    by (auto simp: strip_by_def dest!: set_dropWhileD)
  then show "clean s \<Longrightarrow> clean (strip_by P s)"
    by (rule clean_subset [rotated])
qed

lemma clean_strip: "clean s \<Longrightarrow> clean (strip s)"
  by (simp add: strip_def clean_strip_by)

lemma clean_strip_colon: "clean s \<Longrightarrow> clean (strip_colon s)"
  by (simp add: strip_colon_def clean_strip_by)

lemma clean_drop: "clean s \<Longrightarrow> clean (drop n s)"
  by (rule clean_subset [OF _ set_drop_subset])

lemma clean_take: "clean s \<Longrightarrow> clean (take n s)"
  by (rule clean_subset [OF _ set_take_subset])

lemma clean_slices:
  "clean s \<Longrightarrow> clean (slice_from a s)"
  "clean s \<Longrightarrow> clean (slice_between a k s)"
  by (simp_all add: slice_from_def slice_between_def clean_drop clean_take)

lemma split_ws_from_clean:
  "clean cur \<Longrightarrow> clean s \<Longrightarrow> list_all clean (split_ws_from cur s)"
  by (induction s arbitrary: cur) simp_all

lemma split_ws_clean: "clean s \<Longrightarrow> list_all clean (split_ws s)"
  by (simp add: split_ws_def split_ws_from_clean)

lemma split_on_clean:
  "clean cur \<Longrightarrow> clean s \<Longrightarrow> list_all clean (split_on sep cur s)"
  by (induction sep cur s rule: split_on.induct) (auto simp: clean_drop)

lemma split_sep_clean: "clean s \<Longrightarrow> list_all clean (split_sep s sep)"
  by (simp add: split_sep_def split_on_clean)

lemma replace_str_clean:
  "clean new \<Longrightarrow> clean s \<Longrightarrow> clean (replace_str old new s)"
  by (induction old new s rule: replace_str.induct) (auto simp: clean_drop)

lemma item_clean: "list_all clean xs \<Longrightarrow> item xs i = Inr v \<Longrightarrow> clean v"
  by (auto simp: item_def list_all_length split: if_splits)

lemma item_last_clean: "list_all clean xs \<Longrightarrow> item_last xs = Inr v \<Longrightarrow> clean v"
  by (auto simp: item_last_def list_all_iff split: if_splits)

lemma unpack2_clean: "list_all clean xs \<Longrightarrow> unpack2 xs = Inr (a, b) \<Longrightarrow> clean a \<and> clean b"
  by (auto simp: unpack2_def split: list.splits)

lemma clean_indent: "clean (indent_of line)"
  by (simp add: indent_of_spaces clean_def list_all_iff is_linebreak_def)

lemma unpack2_split_clean:
  "unpack2 (split_sep s sep) = Inr (a, b) \<Longrightarrow> clean s \<Longrightarrow> clean a \<and> clean b"
  using unpack2_clean [OF split_sep_clean] by blast

lemma pour_chaque_clean:
  assumes "unpack2 (split_sep (slice_from 12 stripped) sep1) = Inr (var, range_part)"
    and "unpack2 (split_sep (replace_str old [] range_part) sep2) = Inr (start, end)"
    and "clean stripped"
  shows "clean var \<and> clean start \<and> clean end"
proof -
  from unpack2_split_clean [OF assms(1) clean_slices(1) [OF assms(3)]]
  have v: "clean var" and r: "clean range_part"
    by simp_all
  have "clean (replace_str old [] range_part)"
    by (rule replace_str_clean [OF _ r]) simp
  from unpack2_split_clean [OF assms(2) this] v show ?thesis
    by simp
qed

lemma translate_stmt_clean:
  assumes "clean indent" and "clean stripped"
    and "translate_stmt digit indent stripped = Inr out"
  shows "list_all clean out"
proof -
  note sw = item_clean [OF split_ws_clean [OF assms(2)]]
    item_last_clean [OF split_ws_clean [OF assms(2)]]
  note r = replace_str_clean [OF _ assms(2)] clean_strip clean_strip_colon
    clean_slices [OF assms(2)]
  show ?thesis
    using assms unfolding translate_stmt_def Let_def
    by (auto simp: r U_def is_linebreak_def kw_repeter_def valeur_simulee_def
          intro!: clean_strip replace_str_clean
          dest: sw unpack2_split_clean pour_chaque_clean
          split: if_splits sum.splits prod.splits)
qed

lemma translate_line_clean:
  "clean line \<Longrightarrow> translate_line digit line = Inr out \<Longrightarrow> list_all clean out"
  unfolding translate_line_def
  by (rule translate_stmt_clean [OF clean_indent clean_strip])

lemma translate_lines_clean:
  "list_all clean acc \<Longrightarrow> list_all clean ls \<Longrightarrow>
   translate_lines digit acc ls = Inr out \<Longrightarrow> list_all clean out"
proof (induction ls arbitrary: acc)
  case Nil
  then show ?case by simp
next
  case (Cons l ls)
  from Cons.prems(3) obtain o1 where o: "translate_line digit l = Inr o1"
    and t: "translate_lines digit (acc @ o1) ls = Inr out"
    by (auto split: sum.splits)
  from Cons.prems(2) have l: "clean l" and ls: "list_all clean ls"
    by simp_all
  from translate_line_clean [OF l o] Cons.prems(1) have "list_all clean (acc @ o1)"
    by simp
  from Cons.IH [OF this ls t] show ?case .
qed

lemma preamble_clean: "list_all clean preamble"
  by (simp add: preamble_def U_def is_linebreak_def)

lemma generated_lines_clean:
  "translate_lines digit preamble (splitlines code) = Inr python_lines \<Longrightarrow>
   list_all clean python_lines"
  by (rule translate_lines_clean [OF preamble_clean splitlines_clean])

text \<open>
  The loop of \<open>debug_code\<close> on any text: two entries for each line that \<open>splitlines\<close>
  gives, the trace statement and then the line. On a text of two lines the entries are
  trace(1), line 1, trace(2), line 2.
\<close>

lemma debug_lines_interleaved:
  "length (debug_lines py_code) = 2 * length (splitlines py_code) \<and>
   (\<forall>i < length (splitlines py_code).
      debug_lines py_code ! (2 * i) =
        U ''print('' @ [39] @ U ''DEBUG: Ligne '' @ str_nat (i + 1) @ U '' - ''
          @ preview (splitlines py_code ! i) @ [39] @ U '')'' \<and>
      debug_lines py_code ! (2 * i + 1) = splitlines py_code ! i)"
  using debug_loop_nth [of _ "splitlines py_code" 0]
  by (simp add: debug_lines_def debug_loop_length trace_stmt_def)

lemma debug_two_lines:
  "debug_lines (U ''x = 1'' @ [10] @ U ''    y = 2'') =
     [U ''print('DEBUG: Ligne 1 - x = 1'' @ [39] @ U '')'', U ''x = 1'',
      U ''print('DEBUG: Ligne 2 - y = 2'' @ [39] @ U '')'', U ''    y = 2'']"
  by (simp add: debug_lines_def py_eval trace_stmt_def preview_def str_nat.simps)

text \<open>
  C9, as the source has it. The pass does not receive the list \<open>python_lines\<close> of the
  translator: \<open>parse_code\<close> joins the list by newlines (line 945) and \<open>debug_code\<close>
  splits the text with \<open>splitlines()\<close> (line 391), which opens no line after a final
  boundary. For every program that \<open>parse_code\<close> generates, the lines the pass sees are
  those of \<open>python_lines\<close> without a final empty line. With \<open>m\<close> the number of these
  lines the pass produces \<open>2m\<close> entries: at position \<open>2i\<close> (counting from 0) the trace
  statement of line \<open>i\<close>, and at position \<open>2i + 1\<close> the line itself, unchanged. The trace
  statement prints the counter \<open>i + 1\<close> as its decimal numeral (ASCII digits that denote
  \<open>i + 1\<close>, not empty, no leading zero) and the preview of the line, the first 50 code
  points of the stripped line, so at most 50 long. A final empty line of the generated
  program is neither traced nor kept.
\<close>

theorem debug_instrumentation:
  assumes "translate_lines digit preamble (splitlines code) = Inr python_lines"
  shows "parse_code digit code = Inr (join [10] python_lines) \<and>
   splitlines (join [10] python_lines) = without_final_empty python_lines \<and>
   length (debug_lines (join [10] python_lines)) = 2 * length (without_final_empty python_lines) \<and>
   (\<forall>i < length (without_final_empty python_lines).
      debug_lines (join [10] python_lines) ! (2 * i) =
        U ''print('' @ [39] @ U ''DEBUG: Ligne '' @ str_nat (i + 1) @ U '' - ''
          @ preview (without_final_empty python_lines ! i) @ [39] @ U '')'' \<and>
      debug_lines (join [10] python_lines) ! (2 * i + 1) = without_final_empty python_lines ! i \<and>
      preview (without_final_empty python_lines ! i)
        = take 50 (strip (without_final_empty python_lines ! i)) \<and>
      length (preview (without_final_empty python_lines ! i)) \<le> 50 \<and>
      decimal_value (str_nat (i + 1)) = i + 1 \<and>
      list_all ascii_digit (str_nat (i + 1)) \<and>
      str_nat (i + 1) \<noteq> [] \<and> hd (str_nat (i + 1)) \<noteq> 48)"
proof -
  have p: "parse_code digit code = Inr (join [10] python_lines)"
    using assms by (simp add: parse_code_def)
  have s: "splitlines (join [10] python_lines) = without_final_empty python_lines"
    by (rule splitlines_join [OF generated_lines_clean [OF assms]])
  note d = debug_lines_interleaved [of "join [10] python_lines", unfolded s]
  have n: "\<And>i. decimal_value (str_nat (i + 1)) = i + 1 \<and> list_all ascii_digit (str_nat (i + 1))
      \<and> str_nat (i + 1) \<noteq> [] \<and> hd (str_nat (i + 1)) \<noteq> 48"
    using str_nat_decimal str_nat_canonical by simp
  from p s d n show ?thesis
    by (simp add: preview_def slice_to_def)
qed

theorem debug_instrumentation_witness:
  "parse_code ascii_digit (U ''x = 1'') = Inr (join [10] (preamble @ [U ''x = 1''])) \<and>
   length (debug_lines (join [10] (preamble @ [U ''x = 1'']))) = 12 \<and>
   debug_lines (join [10] (preamble @ [U ''x = 1''])) ! 10
     = U ''print('DEBUG: Ligne 6 - x = 1'' @ [39] @ U '')'' \<and>
   debug_lines (join [10] (preamble @ [U ''x = 1''])) ! 11 = U ''x = 1''"
proof -
  let ?ls = "preamble @ [U ''x = 1'']"
  have t: "translate_lines ascii_digit preamble (splitlines (U ''x = 1'')) = Inr ?ls"
    by (simp add: py_eval)
  have w: "without_final_empty ?ls = ?ls"
    by (simp add: without_final_empty_def U_def)
  have len: "length ?ls = 6"
    by (simp add: preamble_def)
  have s6: "str_nat 6 = [54]"
    by (simp add: str_nat.simps)
  have l5: "(preamble @ [[120, 32, 61, 32, 49]]) ! 5 = [120, 32, 61, 32, 49]"
    by (simp add: preamble_def)
  have pv: "preview [120, 32, 61, 32, 49] = [120, 32, 61, 32, 49]"
    by (simp add: preview_def py_eval)
  note c = debug_instrumentation [OF t, unfolded w len]
  from c have a: "parse_code ascii_digit (U ''x = 1'') = Inr (join [10] ?ls)"
    and b: "length (debug_lines (join [10] ?ls)) = 12"
    by simp_all
  from c have q: "\<forall>i<6. debug_lines (join [10] ?ls) ! (2 * i) =
        U ''print('' @ [39] @ U ''DEBUG: Ligne '' @ str_nat (i + 1) @ U '' - ''
          @ preview (?ls ! i) @ [39] @ U '')'' \<and>
      debug_lines (join [10] ?ls) ! (2 * i + 1) = ?ls ! i"
    by simp
  from q [rule_format, of 5]
  have e: "debug_lines (join [10] ?ls) ! 10
      = U ''print('DEBUG: Ligne 6 - x = 1'' @ [39] @ U '')''"
    "debug_lines (join [10] ?ls) ! 11 = U ''x = 1''"
    by (simp_all add: s6 l5 pv U_def)
  from a b e show ?thesis
    by blast
qed

text \<open>
  C9, as the claim states it: a generated program of \<open>n\<close> lines gives \<open>2n\<close> lines and
  every line of it appears. The program generated from the empty source is the five
  lines of the preamble, of which the fifth is empty; the pass produces 8 entries, not
  10: the last entry is the fourth line of the preamble, and the fifth line is neither
  traced nor kept.
\<close>

theorem debug_drops_final_empty_line:
  "parse_code ascii_digit [] = Inr (join [10] preamble) \<and>
   length preamble = 5 \<and>
   last preamble = [] \<and>
   length (debug_lines (join [10] preamble)) = 8 \<and>
   debug_lines (join [10] preamble) ! 7 = U ''import math''"
  by (simp add: parse_code_def py_eval preamble_def debug_lines_def)

section \<open>The fallback identity rule\<close>

lemma strip_by_idem: "strip_by P (strip_by P s) = strip_by P s"
proof -
  define t where "t = dropWhile P s"
  define u where "u = rev (dropWhile P (rev t))"
  have u: "strip_by P s = u"
    by (simp add: strip_by_def t_def u_def)
  have hd_t: "t \<noteq> [] \<Longrightarrow> \<not> P (hd t)"
    unfolding t_def by (rule hd_dropWhile)
  have tu: "t = u @ rev (takeWhile P (rev t))"
  proof -
    have "t = rev (takeWhile P (rev t) @ dropWhile P (rev t))"
      by (simp only: takeWhile_dropWhile_id rev_rev_ident)
    also have "\<dots> = rev (dropWhile P (rev t)) @ rev (takeWhile P (rev t))"
      by (simp only: rev_append)
    finally show ?thesis
      by (simp only: u_def)
  qed
  have "dropWhile P u = u"
  proof (cases "u = []")
    case True
    then show ?thesis by simp
  next
    case False
    with tu have "hd u = hd t" "t \<noteq> []"
      by (metis hd_append2, metis append_is_Nil_conv)
    with hd_t have "\<not> P (hd u)" by simp
    then show ?thesis by (simp add: dropWhile_eq_self_iff)
  qed
  moreover have "rev (dropWhile P (rev u)) = u"
    by (simp add: u_def)
  ultimately have "strip_by P u = u"
    by (simp add: strip_by_def)
  with u show ?thesis by simp
qed

lemma strip_by_skip: "(\<forall>x \<in> set ws. P x) \<Longrightarrow> strip_by P (ws @ s) = strip_by P s"
  by (simp add: strip_by_def dropWhile_append2)

lemma strip_indent: "strip (indent_of line @ strip s) = strip s"
proof -
  have "\<forall>x \<in> set (indent_of line). is_space x"
    by (simp add: indent_of_spaces is_space_def)
  then have "strip (indent_of line @ strip s) = strip (strip s)"
    unfolding strip_def by (rule strip_by_skip)
  then show ?thesis
    by (simp add: strip_def strip_by_idem)
qed

lemma indent_level_indent: "indent_level (indent_of line @ strip line) = indent_level line"
proof -
  have "indent_level (indent_of line @ strip line) =
      (length (indent_of line @ strip line) - length (strip (indent_of line @ strip line))) div 4"
    by (rule indent_level_def)
  also have "\<dots> = length (indent_of line) div 4"
    by (simp add: strip_indent)
  also have "\<dots> = indent_level line"
    by (simp add: indent_of_spaces)
  finally show ?thesis .
qed

lemma indent_of_indent: "indent_of (indent_of line @ strip line) = indent_of line"
proof -
  have "indent_of (indent_of line @ strip line) =
      repeat_str (U ''    '') (indent_level (indent_of line @ strip line))"
    by (rule indent_of_def)
  also have "\<dots> = repeat_str (U ''    '') (indent_level line)"
    by (simp only: indent_level_indent)
  also have "\<dots> = indent_of line"
    by (simp only: indent_of_def)
  finally show ?thesis .
qed

lemma unmatched_stmt:
  "\<not> matches_some_rule stripped \<Longrightarrow> translate_stmt digit indent stripped = Inr [indent @ stripped]"
  by (simp add: matches_some_rule_def rule_prefixes_def translate_stmt_def)

text \<open>
  An unmatched line is emitted as its indent followed by its content, and the emitted
  line is translated to itself. When nothing is stripped at the right end of a line
  (\<open>line.strip()\<close> is \<open>line.lstrip()\<close>), the level of lines 835 and 836 is the number
  of leading whitespace characters divided by 4, and the leading whitespace of the
  emitted line is its indent.
\<close>

lemma fallback_emits:
  assumes "\<not> matches_some_rule (strip line)"
  shows "translate_line digit line = Inr [indent_of line @ strip line] \<and>
    translate_line digit (indent_of line @ strip line) = Inr [indent_of line @ strip line]"
  using assms
  by (simp add: translate_line_def unmatched_stmt strip_indent indent_of_indent)

lemma indent_level_leading:
  assumes "strip line = dropWhile is_space line"
  shows "indent_level line = length (takeWhile is_space line) div 4"
proof -
  have "length (takeWhile is_space line @ dropWhile is_space line) = length line"
    by (simp only: takeWhile_dropWhile_id)
  then have "length line = length (takeWhile is_space line) + length (dropWhile is_space line)"
    by (simp only: length_append)
  then have "length line - length (dropWhile is_space line) = length (takeWhile is_space line)"
    by simp
  with assms show ?thesis
    by (simp add: indent_level_def)
qed

lemma leading_of_emitted:
  assumes "strip line = dropWhile is_space line"
  shows "takeWhile is_space (replicate n 32 @ strip line) = replicate n 32"
proof -
  have sp: "takeWhile is_space (replicate n 32 @ ys) = replicate n 32 @ takeWhile is_space ys" for ys
    by (rule takeWhile_append2) (simp add: is_space_def)
  have "takeWhile is_space (dropWhile is_space line) = []"
    by (cases "dropWhile is_space line = []") (simp_all add: takeWhile_eq_Nil_iff hd_dropWhile)
  then show ?thesis
    by (simp only: assms sp append_Nil2)
qed

lemma unchanged_iff:
  "(replicate (4 * (length (takeWhile is_space line) div 4)) 32 @ dropWhile is_space line = line)
     = (\<exists>k. takeWhile is_space line = replicate (4 * k) 32)"
proof
  assume a: "replicate (4 * (length (takeWhile is_space line) div 4)) 32 @ dropWhile is_space line = line"
  have "replicate (4 * (length (takeWhile is_space line) div 4)) 32 @ dropWhile is_space line
      = takeWhile is_space line @ dropWhile is_space line"
    using a by (simp only: takeWhile_dropWhile_id)
  then have "takeWhile is_space line = replicate (4 * (length (takeWhile is_space line) div 4)) 32"
    by (simp only: append_same_eq)
  then show "\<exists>k. takeWhile is_space line = replicate (4 * k) 32" ..
next
  assume "\<exists>k. takeWhile is_space line = replicate (4 * k) 32"
  then obtain k where k: "takeWhile is_space line = replicate (4 * k) 32" ..
  then have "length (takeWhile is_space line) = 4 * k"
    by simp
  then have "replicate (4 * (length (takeWhile is_space line) div 4)) (32::nat) = takeWhile is_space line"
    using k by simp
  then show "replicate (4 * (length (takeWhile is_space line) div 4)) 32 @ dropWhile is_space line = line"
    by (simp only: takeWhile_dropWhile_id)
qed

text \<open>
  C7, as the source has it, for a line without trailing whitespace (nothing is stripped
  at its right end; a line with trailing whitespace is the subject of C6 and is left
  out here). A line whose content starts with none of the prefixes of the rule table
  reaches the final \<open>else\<close> (lines 942 and 943): the translator emits the content
  verbatim behind four spaces per level, the level being the number of leading
  whitespace characters divided by 4, rounded down. The emitted line has the same
  level as the source line, and translating the emitted line again gives it unchanged.
  The source line itself is returned unchanged exactly when its leading whitespace is
  a multiple of four spaces; any other indentation is replaced by four spaces per
  level.
\<close>

theorem fallback_identity:
  assumes "\<not> matches_some_rule (strip line)"
    and "strip line = dropWhile is_space line"
  shows "translate_line digit line
      = Inr [replicate (4 * (length (takeWhile is_space line) div 4)) 32 @ strip line] \<and>
    length (takeWhile is_space
        (replicate (4 * (length (takeWhile is_space line) div 4)) 32 @ strip line)) div 4
      = length (takeWhile is_space line) div 4 \<and>
    translate_line digit (replicate (4 * (length (takeWhile is_space line) div 4)) 32 @ strip line)
      = Inr [replicate (4 * (length (takeWhile is_space line) div 4)) 32 @ strip line] \<and>
    (translate_line digit line = Inr [line])
      = (\<exists>k. takeWhile is_space line = replicate (4 * k) 32)"
proof -
  let ?out = "replicate (4 * (length (takeWhile is_space line) div 4)) 32 @ strip line"
  have i: "indent_of line @ strip line = ?out"
    by (simp only: indent_of_spaces indent_level_leading [OF assms(2)])
  from fallback_emits [OF assms(1), of digit]
  have a: "translate_line digit line = Inr [?out]"
    and b: "translate_line digit ?out = Inr [?out]"
    by (simp_all only: i)
  have c: "length (takeWhile is_space ?out) div 4 = length (takeWhile is_space line) div 4"
    by (simp add: leading_of_emitted [OF assms(2)])
  have d: "(translate_line digit line = Inr [line])
      = (\<exists>k. takeWhile is_space line = replicate (4 * k) 32)"
    using unchanged_iff [of line] by (simp add: a assms(2))
  from a b c d show ?thesis
    by (simp only: simp_thms)
qed

theorem fallback_identity_witness:
  "\<not> matches_some_rule (strip (U ''    x = f(1)'')) \<and>
   strip (U ''    x = f(1)'') = dropWhile is_space (U ''    x = f(1)'') \<and>
   translate_line ascii_digit (U ''    x = f(1)'') = Inr [U ''    x = f(1)''] \<and>
   strip (U ''     y = 2'') = dropWhile is_space (U ''     y = 2'') \<and>
   translate_line ascii_digit (U ''     y = 2'') = Inr [U ''    y = 2'']"
proof -
  have r4: "replicate 4 (32::nat) = [32, 32, 32, 32]"
  proof -
    have "(4::nat) = Suc (Suc (Suc (Suc 0)))"
      by simp
    then show ?thesis
      by (simp only: replicate.simps)
  qed
  have m: "\<not> matches_some_rule (strip (U ''    x = f(1)''))"
    by (simp add: matches_some_rule_def rule_prefixes_def py_eval)
  have t: "strip (U ''    x = f(1)'') = dropWhile is_space (U ''    x = f(1)'')"
    by (simp add: py_eval)
  have o: "replicate (4 * (length (takeWhile is_space (U ''    x = f(1)'')) div 4)) 32
      @ strip (U ''    x = f(1)'') = U ''    x = f(1)''"
    by (simp add: py_eval r4)
  have m2: "\<not> matches_some_rule (strip (U ''     y = 2''))"
    by (simp add: matches_some_rule_def rule_prefixes_def py_eval)
  have t2: "strip (U ''     y = 2'') = dropWhile is_space (U ''     y = 2'')"
    by (simp add: py_eval)
  have o2: "replicate (4 * (length (takeWhile is_space (U ''     y = 2'')) div 4)) 32
      @ strip (U ''     y = 2'') = U ''    y = 2''"
    by (simp add: py_eval r4)
  from fallback_identity [OF m t, of ascii_digit]
  have a: "translate_line ascii_digit (U ''    x = f(1)'') = Inr [U ''    x = f(1)'']"
    unfolding o by (rule conjunct1)
  from fallback_identity [OF m2 t2, of ascii_digit]
  have b: "translate_line ascii_digit (U ''     y = 2'') = Inr [U ''    y = 2'']"
    unfolding o2 by (rule conjunct1)
  from m t a t2 b show ?thesis
    by (simp only: simp_thms)
qed

text \<open>
  C7, as the claim states it: translating a line that no rule matches yields it
  unchanged. The unmatched line \<open>x = 1\<close> behind two spaces has level 0 and is emitted
  without its indentation; behind five spaces it has level 1 and is emitted behind
  four spaces.
\<close>

theorem fallback_normalises_indentation:
  "\<not> matches_some_rule (strip (U ''  x = 1'')) \<and>
   translate_line ascii_digit (U ''  x = 1'') = Inr [U ''x = 1''] \<and>
   U ''x = 1'' \<noteq> U ''  x = 1'' \<and>
   \<not> matches_some_rule (strip (U ''     x = 1'')) \<and>
   translate_line ascii_digit (U ''     x = 1'') = Inr [U ''    x = 1''] \<and>
   U ''    x = 1'' \<noteq> U ''     x = 1''"
  by (simp add: matches_some_rule_def rule_prefixes_def py_eval)

section \<open>Malformed statements\<close>

text \<open>Each of the four rules is reached by exactly the contents that start with its
  keyword: no earlier test of the chain holds for them.\<close>

lemma changer_reached:
  assumes "startswith stripped (U ''changer'')"
  shows "translate_stmt digit indent stripped =
    (case item (split_ws stripped) 1 of Inl e \<Rightarrow> Inl e | Inr var \<Rightarrow>
     case item (split_ws stripped) 3 of Inl e \<Rightarrow> Inl e | Inr val \<Rightarrow>
       Inr [indent @ var @ U '' += '' @ val])"
proof -
  from assms obtain zs where s: "stripped = U ''changer'' @ zs"
    by (auto simp: startswith_def prefix_def)
  have n: "\<not> startswith stripped (U ''dire('')" "\<not> startswith stripped (U ''penser('')"
    "\<not> startswith stripped kw_repeter" "\<not> startswith stripped (U ''si'')"
    "\<not> startswith stripped (U ''sinon si'')" "\<not> startswith stripped (U ''sinon'')"
    "\<not> startswith stripped (U ''attendre('')" "\<not> startswith stripped (U ''variable'')"
    unfolding s by (simp_all add: startswith_def U_def kw_repeter_def)
  show ?thesis
    by (simp add: translate_stmt_def n assms)
qed

lemma mettre_reached:
  assumes "startswith stripped (U ''mettre'')"
  shows "translate_stmt digit indent stripped =
    (case item (split_ws stripped) 1 of Inl e \<Rightarrow> Inl e | Inr var \<Rightarrow>
     case item (split_ws stripped) 3 of Inl e \<Rightarrow> Inl e | Inr val \<Rightarrow>
       Inr [indent @ var @ U '' = '' @ val])"
proof -
  from assms obtain zs where s: "stripped = U ''mettre'' @ zs"
    by (auto simp: startswith_def prefix_def)
  have n: "\<not> startswith stripped (U ''dire('')" "\<not> startswith stripped (U ''penser('')"
    "\<not> startswith stripped kw_repeter" "\<not> startswith stripped (U ''si'')"
    "\<not> startswith stripped (U ''sinon si'')" "\<not> startswith stripped (U ''sinon'')"
    "\<not> startswith stripped (U ''attendre('')" "\<not> startswith stripped (U ''variable'')"
    "\<not> startswith stripped (U ''changer'')" "\<not> startswith stripped kw_incrementer"
    unfolding s by (simp_all add: startswith_def U_def kw_repeter_def kw_incrementer_def)
  show ?thesis
    by (simp add: translate_stmt_def n assms)
qed

lemma ajouter_reached:
  assumes "startswith stripped (U ''ajouter'')"
  shows "translate_stmt digit indent stripped =
    (case unpack2 (split_sep stripped sep_a) of Inl e \<Rightarrow> Inl e | Inr (el, lst) \<Rightarrow>
          Inr [indent @ lst @ U ''.append('' @ strip (replace_str (U ''ajouter'') [] el) @ U '')''])"
proof -
  from assms obtain zs where s: "stripped = U ''ajouter'' @ zs"
    by (auto simp: startswith_def prefix_def)
  have n: "\<not> startswith stripped (U ''dire('')" "\<not> startswith stripped (U ''penser('')"
    "\<not> startswith stripped kw_repeter" "\<not> startswith stripped (U ''si'')"
    "\<not> startswith stripped (U ''sinon si'')" "\<not> startswith stripped (U ''sinon'')"
    "\<not> startswith stripped (U ''attendre('')" "\<not> startswith stripped (U ''variable'')"
    "\<not> startswith stripped (U ''changer'')" "\<not> startswith stripped kw_incrementer"
    "\<not> startswith stripped (U ''mettre'')" "\<not> startswith stripped (U ''tant que'')"
    unfolding s by (simp_all add: startswith_def U_def kw_repeter_def kw_incrementer_def)
  show ?thesis
    by (simp add: translate_stmt_def n assms)
qed

lemma enlever_reached:
  assumes "startswith stripped (U ''enlever'')"
  shows "translate_stmt digit indent stripped =
    (case unpack2 (split_sep stripped (U '' de '')) of Inl e \<Rightarrow> Inl e | Inr (el, lst) \<Rightarrow>
          Inr [indent @ lst @ U ''.remove('' @ strip (replace_str (U ''enlever'') [] el) @ U '')''])"
proof -
  from assms obtain zs where s: "stripped = U ''enlever'' @ zs"
    by (auto simp: startswith_def prefix_def)
  have n: "\<not> startswith stripped (U ''dire('')" "\<not> startswith stripped (U ''penser('')"
    "\<not> startswith stripped kw_repeter" "\<not> startswith stripped (U ''si'')"
    "\<not> startswith stripped (U ''sinon si'')" "\<not> startswith stripped (U ''sinon'')"
    "\<not> startswith stripped (U ''attendre('')" "\<not> startswith stripped (U ''variable'')"
    "\<not> startswith stripped (U ''changer'')" "\<not> startswith stripped kw_incrementer"
    "\<not> startswith stripped (U ''mettre'')" "\<not> startswith stripped (U ''tant que'')"
    "\<not> startswith stripped (U ''ajouter'')"
    unfolding s by (simp_all add: startswith_def U_def kw_repeter_def kw_incrementer_def)
  show ?thesis
    by (simp add: translate_stmt_def n assms)
qed

lemma split_on_no_sep: "\<not> sublist sep s \<Longrightarrow> split_on sep cur s = [cur @ s]"
proof (induction s arbitrary: cur)
  case Nil
  then show ?case by simp
next
  case (Cons c cs)
  from Cons.prems have p: "\<not> prefix sep (c # cs)" and q: "\<not> sublist sep cs"
    by (simp_all add: sublist_Cons_right)
  have "split_on sep cur (c # cs) = split_on sep (cur @ [c]) cs"
    using p by (simp only: split_on.simps simp_thms if_False)
  also have "\<dots> = [(cur @ [c]) @ cs]"
    by (rule Cons.IH [OF q])
  finally show ?case
    by simp
qed

lemma unpack2_no_sep: "\<not> sublist sep s \<Longrightarrow> unpack2 (split_sep s sep) = Inl ValueError"
  by (simp add: split_sep_def split_on_no_sep unpack2_def)

lemma translate_lines_first_error:
  "(\<forall>l \<in> set pre. \<exists>out. translate_line digit l = Inr out) \<Longrightarrow>
   translate_line digit line = Inl e \<Longrightarrow>
   translate_lines digit acc (pre @ line # post) = Inl e"
proof (induction pre arbitrary: acc)
  case Nil
  then show ?case by simp
next
  case (Cons p pre)
  from Cons.prems obtain out where o: "translate_line digit p = Inr out"
    by auto
  from Cons.prems have "\<forall>l \<in> set pre. \<exists>out. translate_line digit l = Inr out"
    by simp
  from Cons.IH [OF this Cons.prems(2), of "acc @ out"] o show ?case
    by simp
qed

text \<open>
  C3, as the source has it. The translator has no error report: a malformed statement
  makes a Python exception leave \<open>parse_code\<close>, and nothing is emitted. A line whose
  content starts with \<open>changer\<close> or \<open>mettre\<close> and has fewer than four whitespace
  tokens raises \<open>IndexError\<close>; with four tokens or more it is no error: the second and
  the fourth token are used and the others ignored. A line starting with \<open>ajouter\<close>
  without the separator of that rule (a space, a-grave, a space), or with \<open>enlever\<close>
  without \<open> de \<close>, raises \<open>ValueError\<close>. The exception of the first such line of a
  source is the result of the whole translation: it carries neither the line number nor
  the text, and the lines after it are not looked at.
\<close>

theorem malformed_statement_raises:
  "((startswith (strip line) (U ''changer'') \<or> startswith (strip line) (U ''mettre'')) \<and>
      length (split_ws (strip line)) < 4 \<longrightarrow> translate_line digit line = Inl IndexError) \<and>
   (startswith (strip line) (U ''changer'') \<and> 4 \<le> length (split_ws (strip line)) \<longrightarrow>
      translate_line digit line =
        Inr [indent_of line @ split_ws (strip line) ! 1 @ U '' += '' @ split_ws (strip line) ! 3]) \<and>
   (startswith (strip line) (U ''mettre'') \<and> 4 \<le> length (split_ws (strip line)) \<longrightarrow>
      translate_line digit line =
        Inr [indent_of line @ split_ws (strip line) ! 1 @ U '' = '' @ split_ws (strip line) ! 3]) \<and>
   (startswith (strip line) (U ''ajouter'') \<and> \<not> sublist sep_a (strip line) \<longrightarrow>
      translate_line digit line = Inl ValueError) \<and>
   (startswith (strip line) (U ''enlever'') \<and> \<not> sublist (U '' de '') (strip line) \<longrightarrow>
      translate_line digit line = Inl ValueError) \<and>
   (splitlines code = pre @ line # post \<and>
    (\<forall>l \<in> set pre. \<exists>out. translate_line digit l = Inr out) \<and>
    translate_line digit line = Inl e \<longrightarrow> parse_code digit code = Inl e)"
proof -
  have a: "(startswith (strip line) (U ''changer'') \<or> startswith (strip line) (U ''mettre'')) \<and>
      length (split_ws (strip line)) < 4 \<longrightarrow> translate_line digit line = Inl IndexError"
    by (auto simp: translate_line_def changer_reached mettre_reached item_def)
  have b: "startswith (strip line) (U ''changer'') \<and> 4 \<le> length (split_ws (strip line)) \<longrightarrow>
      translate_line digit line =
        Inr [indent_of line @ split_ws (strip line) ! 1 @ U '' += '' @ split_ws (strip line) ! 3]"
    by (auto simp: translate_line_def changer_reached item_def)
  have c: "startswith (strip line) (U ''mettre'') \<and> 4 \<le> length (split_ws (strip line)) \<longrightarrow>
      translate_line digit line =
        Inr [indent_of line @ split_ws (strip line) ! 1 @ U '' = '' @ split_ws (strip line) ! 3]"
    by (auto simp: translate_line_def mettre_reached item_def)
  have d: "startswith (strip line) (U ''ajouter'') \<and> \<not> sublist sep_a (strip line) \<longrightarrow>
      translate_line digit line = Inl ValueError"
    by (auto simp: translate_line_def ajouter_reached unpack2_no_sep)
  have e: "startswith (strip line) (U ''enlever'') \<and> \<not> sublist (U '' de '') (strip line) \<longrightarrow>
      translate_line digit line = Inl ValueError"
    by (auto simp: translate_line_def enlever_reached unpack2_no_sep)
  have f: "splitlines code = pre @ line # post \<and>
    (\<forall>l \<in> set pre. \<exists>out. translate_line digit l = Inr out) \<and>
    translate_line digit line = Inl e \<longrightarrow> parse_code digit code = Inl e"
    by (auto simp: parse_code_def translate_lines_first_error)
  from a b c d e f show ?thesis
    by blast
qed

theorem malformed_statement_raises_witness:
  "translate_line ascii_digit (U ''changer x de'') = Inl IndexError \<and>
   translate_line ascii_digit (U ''mettre x a 5 6'') = Inr [U ''x = 5''] \<and>
   translate_line ascii_digit (U ''ajouter x'') = Inl ValueError \<and>
   parse_code ascii_digit (U ''dire(1)'' @ [10] @ U ''changer x de'' @ [10] @ U ''mettre y'')
     = Inl IndexError"
proof -
  let ?l = "U ''changer x de''"
  have h1: "startswith (strip ?l) (U ''changer'')" "length (split_ws (strip ?l)) < 4"
    by (simp_all add: py_eval)
  from malformed_statement_raises [where line = ?l and digit = ascii_digit] h1
  have t1: "translate_line ascii_digit ?l = Inl IndexError"
    by blast
  let ?m = "U ''mettre x a 5 6''"
  have h2: "startswith (strip ?m) (U ''mettre'')" "4 \<le> length (split_ws (strip ?m))"
    by (simp_all add: py_eval)
  have i2: "indent_of ?m @ split_ws (strip ?m) ! 1 @ U '' = '' @ split_ws (strip ?m) ! 3
      = U ''x = 5''"
    by (simp add: py_eval)
  from malformed_statement_raises [where line = ?m and digit = ascii_digit] h2
  have "translate_line ascii_digit ?m =
      Inr [indent_of ?m @ split_ws (strip ?m) ! 1 @ U '' = '' @ split_ws (strip ?m) ! 3]"
    by blast
  then have t2: "translate_line ascii_digit ?m = Inr [U ''x = 5'']"
    by (simp only: i2)
  let ?a = "U ''ajouter x''"
  have h3: "startswith (strip ?a) (U ''ajouter'')" "\<not> sublist sep_a (strip ?a)"
    by (simp_all add: py_eval sublist_code)
  from malformed_statement_raises [where line = ?a and digit = ascii_digit] h3
  have t3: "translate_line ascii_digit ?a = Inl ValueError"
    by blast
  let ?c = "U ''dire(1)'' @ [10] @ U ''changer x de'' @ [10] @ U ''mettre y''"
  have sl: "splitlines ?c = [U ''dire(1)''] @ ?l # [U ''mettre y'']"
    by (simp add: py_eval)
  have ok: "\<forall>l \<in> set [U ''dire(1)'']. \<exists>out. translate_line ascii_digit l = Inr out"
    by (simp add: py_eval)
  from malformed_statement_raises [where line = ?l and digit = ascii_digit and code = ?c
      and pre = "[U ''dire(1)'']" and post = "[U ''mettre y'']" and e = IndexError] sl ok t1
  have t4: "parse_code ascii_digit ?c = Inl IndexError"
    by blast
  from t1 t2 t3 t4 show ?thesis
    by blast
qed

text \<open>
  C3, as the claim states it: a token count other than four is reported as an error
  naming the line, and the errors of all lines are collected. A \<open>changer\<close> line with
  five tokens is translated without any error; two malformed lines give one
  \<open>IndexError\<close>, that of the first; a malformed \<open>ajouter\<close> line gives a bare
  \<open>ValueError\<close>.
\<close>

theorem malformed_not_reported:
  "translate_line ascii_digit (U ''changer x de 5 6'') = Inr [U ''x += 5''] \<and>
   length (split_ws (strip (U ''changer x de 5 6''))) = 5 \<and>
   parse_code ascii_digit (U ''changer x de'' @ [10] @ U ''mettre y'') = Inl IndexError \<and>
   parse_code ascii_digit (U ''dire(1)'' @ [10] @ U ''ajouter x'') = Inl ValueError"
  by (simp add: py_eval parse_code_def preamble_def)

section \<open>The temporary file\<close>

text \<open>
  C2, as the source has it. \<open>run_code\<close> and \<open>debug_code\<close> write the program to the
  temporary file and never remove it: when the call returns, the files are exactly those
  the child process left, whatever the outcome of the run (return code 0 or not,
  timeout, failure to launch). A temporary file that the child did not remove itself
  is still there.
\<close>

theorem harness_never_removes:
  assumes "parse_code digit (editor st) = Inr py_code"
  shows "(\<exists>st'. run_code digit subprocess_run path st = Inr st' \<and>
            files st' = snd (subprocess_run path 10 ((files st)(path \<mapsto> py_code)))) \<and>
         (\<exists>st'. debug_code digit subprocess_run path st = Inr st' \<and>
            files st' =
              snd (subprocess_run path 15 ((files st)(path \<mapsto> debug_program py_code))))"
  using assms by (simp add: run_code_def debug_code_def split: prod.splits)

theorem harness_never_removes_witness:
  "file_after (run_code ascii_digit (fails_to_launch (U ''no python'')) (U ''/tmp/tmpa.py'')
       (initial_state [])) (U ''/tmp/tmpa.py'') = Some (join [10] preamble)"
proof -
  have p: "parse_code ascii_digit (editor (initial_state [])) = Inr (join [10] preamble)"
    by (simp add: initial_state_def parse_code_def splitlines_def)
  from harness_never_removes [OF p, of "fails_to_launch (U ''no python'')" "U ''/tmp/tmpa.py''"]
  show ?thesis
    by (auto simp: file_after_def fails_to_launch_def initial_state_def)
qed

text \<open>
  C2, as the claim states it: the temporary file is removed by the time the call
  returns, on every exit path. With a child that leaves the files alone, the file
  exists after the call, with the generated program as its content, on each of the
  four exit paths of \<open>run_code\<close> and after a timeout of \<open>debug_code\<close>.
\<close>

theorem temp_file_left_behind:
  "file_after (run_code ascii_digit (exits_with (U ''ok'') [] 0) (U ''/tmp/tmpa.py'')
       (initial_state [])) (U ''/tmp/tmpa.py'') = Some (join [10] preamble) \<and>
   file_after (run_code ascii_digit (exits_with [] (U ''err'') 1) (U ''/tmp/tmpa.py'')
       (initial_state [])) (U ''/tmp/tmpa.py'') = Some (join [10] preamble) \<and>
   file_after (run_code ascii_digit (times_out [] []) (U ''/tmp/tmpa.py'')
       (initial_state [])) (U ''/tmp/tmpa.py'') = Some (join [10] preamble) \<and>
   file_after (run_code ascii_digit (fails_to_launch (U ''no python'')) (U ''/tmp/tmpa.py'')
       (initial_state [])) (U ''/tmp/tmpa.py'') = Some (join [10] preamble) \<and>
   file_after (debug_code ascii_digit (times_out [] []) (U ''/tmp/tmpa.py'')
       (initial_state [])) (U ''/tmp/tmpa.py'') = Some (debug_program (join [10] preamble))"
  by (simp add: file_after_def run_code_def debug_code_def exits_with_def times_out_def
      fails_to_launch_def initial_state_def parse_code_def splitlines_def)

section \<open>Timeout\<close>

text \<open>
  C4, as the source has it. When \<open>subprocess.run\<close> raises \<open>TimeoutExpired\<close>, the
  handler sets the output to one fixed message (lines 376 and 377, 410 and 411): the
  console shows exactly that message, whatever standard output and standard error the
  exception carries. There is no field for a timed-out flag or an exit code.
\<close>

theorem timeout_message:
  assumes "parse_code digit (editor st) = Inr py_code"
  shows "(fst (subprocess_run path 10 ((files st)(path \<mapsto> py_code))) = TimeoutExpired out err \<longrightarrow>
            console_after (run_code digit subprocess_run path st) = Some timeout_msg) \<and>
         (fst (subprocess_run path 15 ((files st)(path \<mapsto> debug_program py_code)))
              = TimeoutExpired out err \<longrightarrow>
            console_after (debug_code digit subprocess_run path st) = Some timeout_msg)"
  using assms
  by (auto simp: console_after_def run_code_def debug_code_def split: prod.splits)

theorem timeout_message_witness:
  "console_after (run_code ascii_digit (times_out (U ''partial'') []) (U ''/tmp/tmpa.py'')
       (initial_state [])) = Some timeout_msg"
proof -
  have p: "parse_code ascii_digit (editor (initial_state [])) = Inr (join [10] preamble)"
    by (simp add: initial_state_def parse_code_def splitlines_def)
  from timeout_message [OF p, of "times_out (U ''partial'') []" "U ''/tmp/tmpa.py''"
      "U ''partial''" "[]"]
  show ?thesis
    by (simp add: times_out_def)
qed

text \<open>
  C4, as the claim states it: the output captured before the timeout is preserved in
  the result. A run that had printed \<open>partial\<close> and \<open>warn\<close> before it timed out
  shows the fixed message only, which contains neither.
\<close>

theorem timeout_discards_output:
  "console_after (run_code ascii_digit (times_out (U ''partial'') (U ''warn'')) (U ''/tmp/tmpa.py'')
       (initial_state [])) = Some timeout_msg \<and>
   console_after (debug_code ascii_digit (times_out (U ''partial'') (U ''warn'')) (U ''/tmp/tmpa.py'')
       (initial_state [])) = Some timeout_msg \<and>
   \<not> sublist (U ''partial'') timeout_msg \<and> \<not> sublist (U ''warn'') timeout_msg"
  by (simp add: console_after_def run_code_def debug_code_def times_out_def
      initial_state_def parse_code_def splitlines_def timeout_msg_def U_def sublist_code)

end
